theory Spec2Isabelle
  imports Main "HOL-Library.Word"
begin

section \<open>Strings of the source language\<close>

text \<open>
  A string of the source language is a sequence of 16-bit code units. The regular
  expressions of \<^verbatim>\<open>src/index.ts\<close> carry no \<^verbatim>\<open>u\<close> flag, so they match code unit by
  code unit, and \<^verbatim>\<open>trim\<close>, \<^verbatim>\<open>split\<close> and \<^verbatim>\<open>startsWith\<close> work on code units as well.
  \<open>str\<close> embeds an ASCII literal.
\<close>

type_synonym code_unit = "16 word"
type_synonym js_string = "code_unit list"

definition cu :: "char \<Rightarrow> code_unit" where
  "cu c = of_nat (of_char c)"

definition str :: "string \<Rightarrow> js_string" where
  "str s = map cu s"

definition dquote :: code_unit where
  "dquote = 0x22"

definition backslash :: code_unit where
  "backslash = 0x5C"

definition between :: "char \<Rightarrow> char \<Rightarrow> code_unit \<Rightarrow> bool" where
  "between lo hi c = (cu lo \<le> c \<and> c \<le> cu hi)"

text \<open>
  The line terminators (LF, CR, LS, PS) and the white space of the language (TAB, VT, FF,
  the byte order mark and the space separators). The class \<^verbatim>\<open>\s\<close> and \<^verbatim>\<open>trim\<close> both
  use the union of the two.
\<close>

definition is_line_terminator :: "code_unit \<Rightarrow> bool" where
  "is_line_terminator c = (c \<in> set [0x000A, 0x000D, 0x2028, 0x2029])"

definition is_white_space :: "code_unit \<Rightarrow> bool" where
  "is_white_space c =
     (c \<in> set [0x0009, 0x000B, 0x000C, 0xFEFF, 0x0020, 0x00A0, 0x1680, 0x202F, 0x205F, 0x3000]
      \<or> (0x2000 \<le> c \<and> c \<le> 0x200A)
      \<or> is_line_terminator c)"

definition trim :: "js_string \<Rightarrow> js_string" where
  "trim s = rev (dropWhile is_white_space (rev (dropWhile is_white_space s)))"

text \<open>
  \<^verbatim>\<open>s.split(sep)\<close> for a separator of one code unit and no limit: the pieces between the
  occurrences of the separator, in order; never the empty array.
\<close>

fun split_on :: "'a \<Rightarrow> 'a list \<Rightarrow> 'a list list" where
  "split_on sep [] = [[]]"
| "split_on sep (c # cs) =
     (if c = sep then [] # split_on sep cs
      else (case split_on sep cs of
              [] \<Rightarrow> [[c]]
            | w # ws \<Rightarrow> (c # w) # ws))"

text \<open>Indexing an array: \<^verbatim>\<open>undefined\<close> out of range.\<close>

definition nth_opt :: "'a list \<Rightarrow> nat \<Rightarrow> 'a option" where
  "nth_opt xs i = (if i < length xs then Some (xs ! i) else None)"

definition startsWith :: "js_string \<Rightarrow> char \<Rightarrow> bool" where
  "startsWith s ch = (case s of [] \<Rightarrow> False | c # _ \<Rightarrow> c = cu ch)"

section \<open>Regular expressions\<close>

text \<open>
  The patterns of the source use character classes, literals, sequence, alternation,
  groups and the greedy quantifiers \<^verbatim>\<open>*\<close>, \<^verbatim>\<open>+\<close>, \<^verbatim>\<open>?\<close>, \<^verbatim>\<open>{3}\<close>, \<^verbatim>\<open>{2,}\<close>; no
  backreference, no lookaround, no lazy quantifier. Both are anchored with \<^verbatim>\<open>^\<close> and
  \<^verbatim>\<open>$\<close> and have no \<^verbatim>\<open>m\<close> flag, so \<^verbatim>\<open>regex.test(s)\<close> succeeds exactly when the whole
  of \<open>s\<close> is a word of the pattern: the backtracking of the engine tries every way to
  split \<open>s\<close>. Neither has the \<^verbatim>\<open>g\<close> nor the \<^verbatim>\<open>y\<close> flag, so \<^verbatim>\<open>test\<close> reads and
  writes no \<^verbatim>\<open>lastIndex\<close>. \<open>test\<close> below decides membership by derivatives.
\<close>

datatype 'a rexp =
    Zero
  | One
  | Atom "'a \<Rightarrow> bool"
  | Alt "'a rexp" "'a rexp"
  | Seq "'a rexp" "'a rexp"
  | Star "'a rexp"

fun nullable :: "'a rexp \<Rightarrow> bool" where
  "nullable Zero = False"
| "nullable One = True"
| "nullable (Atom p) = False"
| "nullable (Alt r s) = (nullable r \<or> nullable s)"
| "nullable (Seq r s) = (nullable r \<and> nullable s)"
| "nullable (Star r) = True"

fun deriv :: "'a \<Rightarrow> 'a rexp \<Rightarrow> 'a rexp" where
  "deriv c Zero = Zero"
| "deriv c One = Zero"
| "deriv c (Atom p) = (if p c then One else Zero)"
| "deriv c (Alt r s) = Alt (deriv c r) (deriv c s)"
| "deriv c (Seq r s) =
     (if nullable r then Alt (Seq (deriv c r) s) (deriv c s) else Seq (deriv c r) s)"
| "deriv c (Star r) = Seq (deriv c r) (Star r)"

fun test :: "'a rexp \<Rightarrow> 'a list \<Rightarrow> bool" where
  "test r [] = nullable r"
| "test r (c # cs) = test (deriv c r) cs"

text \<open>The derived forms of the pattern syntax.\<close>

definition Lit :: "code_unit \<Rightarrow> code_unit rexp" where
  "Lit k = Atom (\<lambda>c. c = k)"

definition Plus :: "'a rexp \<Rightarrow> 'a rexp" where
  "Plus r = Seq r (Star r)"

definition Opt :: "'a rexp \<Rightarrow> 'a rexp" where
  "Opt r = Alt r One"

fun Times :: "nat \<Rightarrow> 'a rexp \<Rightarrow> 'a rexp" where
  "Times 0 r = One"
| "Times (Suc n) r = Seq r (Times n r)"

definition AtLeast :: "nat \<Rightarrow> 'a rexp \<Rightarrow> 'a rexp" where
  "AtLeast n r = Seq (Times n r) (Star r)"

fun Seqs :: "'a rexp list \<Rightarrow> 'a rexp" where
  "Seqs [] = One"
| "Seqs [r] = r"
| "Seqs (r # rs) = Seq r (Seqs rs)"

fun Alts :: "'a rexp list \<Rightarrow> 'a rexp" where
  "Alts [] = Zero"
| "Alts [r] = r"
| "Alts (r # rs) = Alt r (Alts rs)"

section \<open>The two grammars of \<^verbatim>\<open>src/index.ts\<close>\<close>

subsection \<open>Character classes\<close>

definition alpha :: "code_unit \<Rightarrow> bool" where
  \<comment> \<open>\<^verbatim>\<open>[a-zA-Z]\<close>\<close>
  "alpha c = (between CHR ''a'' CHR ''z'' c \<or> between CHR ''A'' CHR ''Z'' c)"

definition digit :: "code_unit \<Rightarrow> bool" where
  \<comment> \<open>\<^verbatim>\<open>[0-9]\<close>\<close>
  "digit c = between CHR ''0'' CHR ''9'' c"

definition alnum :: "code_unit \<Rightarrow> bool" where
  \<comment> \<open>\<^verbatim>\<open>[a-zA-Z0-9]\<close>\<close>
  "alnum c = (alpha c \<or> digit c)"

definition alnum_hyphen :: "code_unit \<Rightarrow> bool" where
  \<comment> \<open>\<^verbatim>\<open>[a-zA-Z0-9-]\<close>\<close>
  "alnum_hyphen c = (alnum c \<or> c = cu CHR ''-'')"

definition rw_local_char :: "code_unit \<Rightarrow> bool" where
  \<comment> \<open>\<^verbatim>\<open>[^<>()[\]\\.,;:\s@"]\<close>\<close>
  "rw_local_char c =
     (\<not> (c \<in> set [cu CHR ''<'', cu CHR ''>'', cu CHR ''('', cu CHR '')'', cu CHR ''['',
                    cu CHR '']'', backslash, cu CHR ''.'', cu CHR '','', cu CHR '';'',
                    cu CHR '':'', cu CHR ''@'', dquote]
          \<or> is_white_space c))"

definition rfc_atext :: "code_unit \<Rightarrow> bool" where
  \<comment> \<open>\<^verbatim>\<open>[a-zA-Z0-9!#$%&'*+/=?^_`{|}~-]\<close>; 0x27 is the apostrophe, 0x60 the backtick\<close>
  "rfc_atext c =
     (alnum c
      \<or> c \<in> set [cu CHR ''!'', cu CHR ''#'', cu CHR ''$'', cu CHR ''%'', cu CHR ''&'', 0x27,
                  cu CHR ''*'', cu CHR ''+'', cu CHR ''/'', cu CHR ''='', cu CHR ''?'',
                  cu CHR ''^'', cu CHR ''_'', 0x60, cu CHR ''{'', cu CHR ''|'', cu CHR ''}'',
                  cu CHR ''~'', cu CHR ''-''])"

definition rfc_qtext :: "code_unit \<Rightarrow> bool" where
  \<comment> \<open>\<^verbatim>\<open>[^"\\]\<close>\<close>
  "rfc_qtext c = (\<not> (c = dquote \<or> c = backslash))"

definition any_char :: "code_unit \<Rightarrow> bool" where
  \<comment> \<open>\<^verbatim>\<open>.\<close> without the \<^verbatim>\<open>s\<close> flag\<close>
  "any_char c = (\<not> is_line_terminator c)"

definition hex_colon :: "code_unit \<Rightarrow> bool" where
  \<comment> \<open>\<^verbatim>\<open>[a-fA-F0-9:]\<close>\<close>
  "hex_colon c =
     (between CHR ''a'' CHR ''f'' c \<or> between CHR ''A'' CHR ''F'' c \<or> digit c
      \<or> c = cu CHR '':'')"

subsection \<open>The real-world pattern\<close>

text \<open>
  \<^verbatim>\<open>/^([^<>()[\]\\.,;:\s@"]+(\.[^<>()[\]\\.,;:\s@"]+)*)@(([a-zA-Z0-9](?:[a-zA-Z0-9-]*[a-zA-Z0-9])?\.)+[a-zA-Z]{2,})$/i\<close>

  The \<^verbatim>\<open>i\<close> flag compares the upper-case forms of code units. It changes nothing here:
  the letter classes hold both cases, a code unit from 128 on is never folded to one
  below 128, and no code unit has a punctuation or white space character as its
  upper-case form.
\<close>

definition rw_local :: "code_unit rexp" where
  "rw_local =
     Seq (Plus (Atom rw_local_char))
         (Star (Seq (Lit (cu CHR ''.'')) (Plus (Atom rw_local_char))))"

definition rw_label :: "code_unit rexp" where
  "rw_label = Seq (Atom alnum) (Opt (Seq (Star (Atom alnum_hyphen)) (Atom alnum)))"

definition rw_domain :: "code_unit rexp" where
  "rw_domain = Seq (Plus (Seq rw_label (Lit (cu CHR ''.'')))) (AtLeast 2 (Atom alpha))"

definition realWorldEmailRegex :: "code_unit rexp" where
  "realWorldEmailRegex = Seqs [rw_local, Lit (cu CHR ''@''), rw_domain]"

subsection \<open>The rfc pattern\<close>

definition rfcUnquotedLocal :: "code_unit rexp" where
  \<comment> \<open>\<^verbatim>\<open>[a-zA-Z0-9!#$%&'*+/=?^_`{|}~-]+(\.[a-zA-Z0-9!#$%&'*+/=?^_`{|}~-]+)*\<close>\<close>
  "rfcUnquotedLocal =
     Seq (Plus (Atom rfc_atext))
         (Star (Seq (Lit (cu CHR ''.'')) (Plus (Atom rfc_atext))))"

definition rfcQuotedLocal :: "code_unit rexp" where
  \<comment> \<open>\<^verbatim>\<open>"([^"\\]|\\.)*"\<close>\<close>
  "rfcQuotedLocal =
     Seqs [Lit dquote,
           Star (Alt (Atom rfc_qtext) (Seq (Lit backslash) (Atom any_char))),
           Lit dquote]"

definition rfcDomain :: "code_unit rexp" where
  \<comment> \<open>\<^verbatim>\<open>([a-zA-Z0-9-]+\.)*[a-zA-Z0-9-]+\<close>\<close>
  "rfcDomain =
     Seq (Star (Seq (Plus (Atom alnum_hyphen)) (Lit (cu CHR ''.''))))
         (Plus (Atom alnum_hyphen))"

definition octet :: "code_unit rexp" where
  \<comment> \<open>\<^verbatim>\<open>(25[0-5]|2[0-4][0-9]|[01]?[0-9][0-9]?)\<close>\<close>
  "octet =
     Alts [Seqs [Lit (cu CHR ''2''), Lit (cu CHR ''5''), Atom (between CHR ''0'' CHR ''5'')],
           Seqs [Lit (cu CHR ''2''), Atom (between CHR ''0'' CHR ''4''), Atom digit],
           Seqs [Opt (Atom (between CHR ''0'' CHR ''1'')), Atom digit, Opt (Atom digit)]]"

definition rfcIPv4 :: "code_unit rexp" where
  \<comment> \<open>\<^verbatim>\<open>\[(25[0-5]|2[0-4][0-9]|[01]?[0-9][0-9]?)(\.(25[0-5]|2[0-4][0-9]|[01]?[0-9][0-9]?)){3}\]\<close>\<close>
  "rfcIPv4 =
     Seqs [Lit (cu CHR ''[''), octet, Times 3 (Seq (Lit (cu CHR ''.'')) octet),
           Lit (cu CHR '']'')]"

definition rfcIPv6 :: "code_unit rexp" where
  \<comment> \<open>\<^verbatim>\<open>\[IPv6:[a-fA-F0-9:]+\]\<close>\<close>
  "rfcIPv6 =
     Seqs [Lit (cu CHR ''[''), Lit (cu CHR ''I''), Lit (cu CHR ''P''), Lit (cu CHR ''v''),
           Lit (cu CHR ''6''), Lit (cu CHR '':''), Plus (Atom hex_colon), Lit (cu CHR '']'')]"

definition rfcSyntaxRegex :: "code_unit rexp" where
  \<comment> \<open>\<^verbatim>\<open>^(unquoted|quoted)@(domain|ipv4|ipv6)$\<close>\<close>
  "rfcSyntaxRegex =
     Seqs [Alt rfcUnquotedLocal rfcQuotedLocal,
           Lit (cu CHR ''@''),
           Alts [rfcDomain, rfcIPv4, rfcIPv6]]"

section \<open>The validator\<close>

datatype ValidationMode = RealWorld | Rfc

record ValidatorOptions =
  checkDomain :: "bool option"
  validationMode :: "ValidationMode option"

text \<open>
  The argument \<^verbatim>\<open>email\<close> is typed \<^verbatim>\<open>string\<close>, but the function tests
  \<^verbatim>\<open>typeof email\<close> at run time, so the model takes any value of the language. Only
  the kind of a value that is not a string is ever read; \<open>JObject\<close> stands for every
  object, arrays and \<^verbatim>\<open>String\<close> objects included.
\<close>

datatype js_value =
    JString js_string
  | JNumber int
  | JBigInt int
  | JBoolean bool
  | JSymbol
  | JNull
  | JUndefined
  | JFunction
  | JObject

datatype error = TypeError string

text \<open>
  \<^verbatim>\<open>typeof\<close> of a value, which the first statement of the function compares with
  \<^verbatim>\<open>'string'\<close>.
\<close>

definition typeof_js :: "js_value \<Rightarrow> string" where
  "typeof_js v =
     (case v of
        JString _ \<Rightarrow> ''string''
      | JNumber _ \<Rightarrow> ''number''
      | JBigInt _ \<Rightarrow> ''bigint''
      | JBoolean _ \<Rightarrow> ''boolean''
      | JSymbol \<Rightarrow> ''symbol''
      | JNull \<Rightarrow> ''object''
      | JUndefined \<Rightarrow> ''undefined''
      | JFunction \<Rightarrow> ''function''
      | JObject \<Rightarrow> ''object'')"

definition string_of :: "js_value \<Rightarrow> js_string" where
  \<comment> \<open>the code units of a value whose \<^verbatim>\<open>typeof\<close> is \<^verbatim>\<open>'string'\<close>\<close>
  "string_of v = (case v of JString s \<Rightarrow> s | _ \<Rightarrow> [])"


text \<open>
  \<^verbatim>\<open>dns.resolveMx\<close> is the environment: it resolves to a list of records or rejects with
  an error, of which the function reads the \<^verbatim>\<open>code\<close> field only (absent on an error
  that has none). The model takes the resolver as a parameter and returns, next to the
  outcome of the promise, the arguments of the lookups it made, in order.
\<close>

record MxRecord =
  exchange :: js_string
  priority :: nat

datatype mx_outcome = Resolved "MxRecord list" | Rejected "string option"

type_synonym resolver = "js_string \<Rightarrow> mx_outcome"

definition mode_of :: "ValidatorOptions option \<Rightarrow> ValidationMode" where
  \<comment> \<open>\<^verbatim>\<open>options?.validationMode ?? 'real-world'\<close>\<close>
  "mode_of options =
     (case options of
        None \<Rightarrow> RealWorld
      | Some opts \<Rightarrow> (case validationMode opts of None \<Rightarrow> RealWorld | Some m \<Rightarrow> m))"

definition checkDomain_of :: "ValidatorOptions option \<Rightarrow> bool" where
  \<comment> \<open>\<^verbatim>\<open>options?.checkDomain ?? false\<close>\<close>
  "checkDomain_of options =
     (case options of
        None \<Rightarrow> False
      | Some opts \<Rightarrow> (case checkDomain opts of None \<Rightarrow> False | Some b \<Rightarrow> b))"

definition selectedRegex :: "ValidationMode \<Rightarrow> code_unit rexp" where
  "selectedRegex m = (if m = Rfc then rfcSyntaxRegex else realWorldEmailRegex)"

text \<open>
  The checks after the pattern in rfc mode (lines 87 to 101): \<open>True\<close> when one of the two
  \<^verbatim>\<open>return false\<close> is reached. \<open>last labels\<close> is \<^verbatim>\<open>labels[labels.length - 1]\<close>;
  \<open>split_on\<close> never returns the empty list.
\<close>

definition rfc_post_regex_rejects :: "js_string \<Rightarrow> bool" where
  "rfc_post_regex_rejects trimmedEmail =
     (case nth_opt (split_on (cu CHR ''@'') trimmedEmail) 1 of
        None \<Rightarrow> False
      | Some domainPart \<Rightarrow>
          if domainPart = [] then False
          else if startsWith domainPart CHR ''['' then False
          else
            (let labels = split_on (cu CHR ''.'') domainPart;
                 tld = last labels
             in if length tld = 0 then True
                else if list_ex (\<lambda>l. length l = 0) labels then True
                else False))"

definition known_dns_codes :: "string list" where
  "known_dns_codes = [''ENOTFOUND'', ''ENODATA'', ''ESERVFAIL'', ''ETIMEOUT'']"

definition validateEmailStrict ::
  "resolver \<Rightarrow> js_value \<Rightarrow> ValidatorOptions option \<Rightarrow> (error + bool) \<times> js_string list" where
  "validateEmailStrict resolveMx email options =
     (if typeof_js email \<noteq> ''string'' then (Inl (TypeError ''Input must be a string.''), [])
      else
        (let trimmedEmail = trim (string_of email) in
         if length trimmedEmail = 0 then (Inr False, [])
         else if \<not> test (selectedRegex (mode_of options)) trimmedEmail then (Inr False, [])
         else if mode_of options = Rfc \<and> rfc_post_regex_rejects trimmedEmail
           then (Inr False, [])
         else if \<not> checkDomain_of options then (Inr True, [])
         else
           (case nth_opt (split_on (cu CHR ''@'') trimmedEmail) 1 of
              None \<Rightarrow> (Inr False, [])
            | Some domain \<Rightarrow>
                if domain = [] then (Inr False, [])
                else
                  (case resolveMx domain of
                     Resolved mxRecords \<Rightarrow> (Inr (length mxRecords > 0), [domain])
                   | Rejected code \<Rightarrow>
                       if code \<in> set (map Some known_dns_codes) then (Inr False, [domain])
                       else (Inr False, [domain])))))"

text \<open>
  The syntax check of a policy on a trimmed, non-empty input: the pattern, then in rfc
  mode the checks after it (lines 79 to 101).
\<close>

definition syntax_check :: "ValidationMode \<Rightarrow> js_string \<Rightarrow> bool" where
  "syntax_check m t =
     (if \<not> test (selectedRegex m) t then False
      else if m = Rfc \<and> rfc_post_regex_rejects t then False
      else True)"


text \<open>What the promise settles to once the lookup has settled (lines 115 to 136).\<close>

definition mx_verdict :: "mx_outcome \<Rightarrow> bool" where
  "mx_verdict out = (case out of Resolved mxRecords \<Rightarrow> 0 < length mxRecords | Rejected _ \<Rightarrow> False)"

section \<open>The language of a pattern\<close>

definition lang_conc :: "'a list set \<Rightarrow> 'a list set \<Rightarrow> 'a list set" where
  "lang_conc A B = {u @ v | u v. u \<in> A \<and> v \<in> B}"

inductive_set lang_star :: "'a list set \<Rightarrow> 'a list set" for A :: "'a list set" where
  star_nil: "[] \<in> lang_star A"
| star_app: "u \<in> A \<Longrightarrow> v \<in> lang_star A \<Longrightarrow> u @ v \<in> lang_star A"

fun lang :: "'a rexp \<Rightarrow> 'a list set" where
  "lang Zero = {}"
| "lang One = {[]}"
| "lang (Atom p) = {[c] | c. p c}"
| "lang (Alt r s) = lang r \<union> lang s"
| "lang (Seq r s) = lang_conc (lang r) (lang s)"
| "lang (Star r) = lang_star (lang r)"

text \<open>The code units that can occur in a word of a pattern.\<close>

fun alphabet :: "'a rexp \<Rightarrow> 'a set" where
  "alphabet Zero = {}"
| "alphabet One = {}"
| "alphabet (Atom p) = {c. p c}"
| "alphabet (Alt r s) = alphabet r \<union> alphabet s"
| "alphabet (Seq r s) = alphabet r \<union> alphabet s"
| "alphabet (Star r) = alphabet r"

definition printable_ascii :: "code_unit \<Rightarrow> bool" where
  "printable_ascii c = (0x21 \<le> c \<and> c \<le> 0x7E)"

section \<open>The matcher decides the language\<close>

lemma conc_iff: "w \<in> lang_conc A B \<longleftrightarrow> (\<exists>u v. w = u @ v \<and> u \<in> A \<and> v \<in> B)"
  by (auto simp: lang_conc_def)

lemma concI: "u \<in> A \<Longrightarrow> v \<in> B \<Longrightarrow> u @ v \<in> lang_conc A B"
  by (auto simp: lang_conc_def)

lemma conc_mono: "A \<subseteq> A' \<Longrightarrow> B \<subseteq> B' \<Longrightarrow> lang_conc A B \<subseteq> lang_conc A' B'"
  by (auto simp: lang_conc_def)

lemma star_mono: "A \<subseteq> B \<Longrightarrow> lang_star A \<subseteq> lang_star B"
proof
  fix w assume sub: "A \<subseteq> B" and "w \<in> lang_star A"
  from this(2) show "w \<in> lang_star B"
    by (induction rule: lang_star.induct) (use sub in \<open>auto intro: lang_star.intros\<close>)
qed

lemma nullable_lang: "nullable r \<longleftrightarrow> [] \<in> lang r"
  by (induction r) (auto simp: conc_iff intro: star_nil)

lemma Cons_in_conc:
  "c # w \<in> lang_conc A B \<longleftrightarrow>
     ([] \<in> A \<and> c # w \<in> B) \<or> (\<exists>u v. w = u @ v \<and> c # u \<in> A \<and> v \<in> B)"
  by (auto simp: conc_iff Cons_eq_append_conv) 

lemma star_Cons_split:
  assumes "x \<in> lang_star A" and "x = c # w"
  shows "\<exists>u v. w = u @ v \<and> c # u \<in> A \<and> v \<in> lang_star A"
  using assms
proof (induction arbitrary: w rule: lang_star.induct)
  case star_nil
  then show ?case by simp
next
  case (star_app u v)
  show ?case
  proof (cases u)
    case Nil
    with star_app show ?thesis by simp
  next
    case (Cons a u')
    with star_app show ?thesis by auto
  qed
qed

lemma Cons_in_star:
  "c # w \<in> lang_star A \<longleftrightarrow> (\<exists>u v. w = u @ v \<and> c # u \<in> A \<and> v \<in> lang_star A)"
proof
  assume "c # w \<in> lang_star A"
  then show "\<exists>u v. w = u @ v \<and> c # u \<in> A \<and> v \<in> lang_star A"
    by (rule star_Cons_split) simp
next
  assume "\<exists>u v. w = u @ v \<and> c # u \<in> A \<and> v \<in> lang_star A"
  then obtain u v where "w = u @ v" "c # u \<in> A" "v \<in> lang_star A" by blast
  then show "c # w \<in> lang_star A"
    using star_app [of "c # u" A v] by simp
qed

lemma lang_deriv: "w \<in> lang (deriv c r) \<longleftrightarrow> c # w \<in> lang r"
proof (induction r arbitrary: w)
  case (Seq r s)
  have right: "c # w \<in> lang (Seq r s) \<longleftrightarrow>
      ([] \<in> lang r \<and> c # w \<in> lang s) \<or> (\<exists>u v. w = u @ v \<and> c # u \<in> lang r \<and> v \<in> lang s)"
    by (simp add: Cons_in_conc)
  have step: "w \<in> lang_conc (lang (deriv c r)) (lang s) \<longleftrightarrow>
      (\<exists>u v. w = u @ v \<and> c # u \<in> lang r \<and> v \<in> lang s)"
    by (simp add: conc_iff Seq.IH)
  have left: "w \<in> lang (deriv c (Seq r s)) \<longleftrightarrow>
      (nullable r \<and> w \<in> lang (deriv c s)) \<or> w \<in> lang_conc (lang (deriv c r)) (lang s)"
    by auto
  show ?case
    unfolding left right step by (simp add: nullable_lang Seq.IH)
next
  case (Star r)
  have "w \<in> lang_conc (lang (deriv c r)) (lang_star (lang r)) \<longleftrightarrow>
      (\<exists>u v. w = u @ v \<and> c # u \<in> lang r \<and> v \<in> lang_star (lang r))"
    by (simp add: conc_iff Star.IH)
  then show ?case
    by (simp add: Cons_in_star)
qed auto

lemma test_lang: "test r w \<longleftrightarrow> w \<in> lang r"
  by (induction w arbitrary: r) (simp_all add: nullable_lang lang_deriv)

lemma star_chars:
  assumes "w \<in> lang_star A" and "\<And>u. u \<in> A \<Longrightarrow> set u \<subseteq> S"
  shows "set w \<subseteq> S"
  using assms by (induction rule: lang_star.induct) auto

lemma lang_alphabet: "w \<in> lang r \<Longrightarrow> set w \<subseteq> alphabet r"
proof (induction r arbitrary: w)
  case (Seq r s)
  then show ?case by (fastforce simp: conc_iff)
next
  case (Star r)
  then show ?case using star_chars [of w "lang r" "alphabet r"] by auto
qed auto

section \<open>Splitting, and words of one class\<close>

lemma split_on_not_Nil: "split_on sep s \<noteq> []"
  by (induction s) (auto split: list.splits)

lemma split_on_no_sep: "sep \<notin> set w \<Longrightarrow> split_on sep w = [w]"
  by (induction w) auto

lemma split_on_append:
  "sep \<notin> set w \<Longrightarrow> split_on sep (w @ sep # rest) = w # split_on sep rest"
  by (induction w) auto

lemma star_atom: "w \<in> lang_star {[c] | c. p c} \<longleftrightarrow> (\<forall>c\<in>set w. p c)"
proof
  assume "w \<in> lang_star {[c] | c. p c}"
  then show "\<forall>c\<in>set w. p c"
    by (induction rule: lang_star.induct) auto
next
  show "\<forall>c\<in>set w. p c \<Longrightarrow> w \<in> lang_star {[c] | c. p c}"
  proof (induction w)
    case Nil
    show ?case by (rule star_nil)
  next
    case (Cons a w)
    then have "[a] \<in> {[c] | c. p c}" and "w \<in> lang_star {[c] | c. p c}" by auto
    then have "[a] @ w \<in> lang_star {[c] | c. p c}" by (rule star_app)
    then show ?case by simp
  qed
qed

lemma conc_atom:
  "w \<in> lang_conc {[c] | c. p c} B \<longleftrightarrow> (\<exists>c v. w = c # v \<and> p c \<and> v \<in> B)"
proof
  assume "w \<in> lang_conc {[c] | c. p c} B"
  then obtain u v where "w = u @ v" "u \<in> {[c] | c. p c}" "v \<in> B"
    by (auto simp: conc_iff)
  then show "\<exists>c v. w = c # v \<and> p c \<and> v \<in> B" by auto
next
  assume "\<exists>c v. w = c # v \<and> p c \<and> v \<in> B"
  then obtain c v where w: "w = c # v" and "p c" "v \<in> B" by blast
  then have "[c] @ v \<in> lang_conc {[c] | c. p c} B"
    by (intro concI) auto
  with w show "w \<in> lang_conc {[c] | c. p c} B" by simp
qed

lemma plus_atom: "w \<in> lang (Plus (Atom p)) \<longleftrightarrow> w \<noteq> [] \<and> (\<forall>c\<in>set w. p c)"
proof -
  have "w \<in> lang (Plus (Atom p)) \<longleftrightarrow> (\<exists>c v. w = c # v \<and> p c \<and> (\<forall>x\<in>set v. p x))"
    by (simp add: Plus_def conc_atom star_atom)
  then show ?thesis by (cases w) auto
qed

lemma star_narrow:
  assumes "w \<in> lang_star A" and "set w \<subseteq> S" and "\<And>u. u \<in> A \<Longrightarrow> set u \<subseteq> S \<Longrightarrow> u \<in> B"
  shows "w \<in> lang_star B"
  using assms by (induction rule: lang_star.induct) (auto intro: lang_star.intros)

lemma star_star: "u \<in> lang_star A \<Longrightarrow> v \<in> lang_star A \<Longrightarrow> u @ v \<in> lang_star A"
  by (induction rule: lang_star.induct) (auto intro: lang_star.intros)

lemma at_not_rw_local_char: "\<not> rw_local_char (cu CHR ''@'')"
  by (simp add: rw_local_char_def)

lemma dot_not_rw_local_char: "\<not> rw_local_char (cu CHR ''.'')"
  by (simp add: rw_local_char_def)

lemma at_not_alnum_hyphen: "\<not> alnum_hyphen (cu CHR ''@'')"
  by (simp add: alnum_hyphen_def alnum_def alpha_def digit_def between_def cu_def)

lemma dot_not_alnum_hyphen: "\<not> alnum_hyphen (cu CHR ''.'')"
  by (simp add: alnum_hyphen_def alnum_def alpha_def digit_def between_def cu_def)

lemma bracket_not_alnum_hyphen: "\<not> alnum_hyphen (cu CHR ''['')"
  by (simp add: alnum_hyphen_def alnum_def alpha_def digit_def between_def cu_def)

lemma at_not_dot: "cu CHR ''@'' \<noteq> cu CHR ''.''" "cu CHR ''['' \<noteq> cu CHR ''.''"
  by (simp_all add: cu_def)

lemma alnum_imp: "alnum c \<Longrightarrow> alnum_hyphen c" "alpha c \<Longrightarrow> alnum_hyphen c"
  by (simp_all add: alnum_hyphen_def alnum_def)

section \<open>From the real-world pattern to the rfc pattern\<close>

lemma plus_atom_weaken:
  "w \<in> lang (Plus (Atom p)) \<Longrightarrow> (\<And>c. c \<in> set w \<Longrightarrow> p c \<Longrightarrow> q c) \<Longrightarrow> w \<in> lang (Plus (Atom q))"
  by (simp add: plus_atom)

lemma nonnull_alphabet_plus:
  assumes "\<not> nullable r" and "alphabet r \<subseteq> Collect p" and "w \<in> lang r"
  shows "w \<in> lang (Plus (Atom p))"
proof -
  from assms(1,3) have "w \<noteq> []" using nullable_lang [of r] by auto
  moreover from assms(2,3) have "\<forall>c\<in>set w. p c" using lang_alphabet [of w r] by auto
  ultimately show ?thesis by (simp add: plus_atom)
qed

lemma plus_in_star: "lang (Plus r) \<subseteq> lang (Star r)"
  by (auto simp: Plus_def conc_iff intro: star_app)

lemma lang_Lit: "lang (Lit k) = {[k]}"
  by (auto simp: Lit_def)

lemma conc_single: "w \<in> lang_conc {[k]} B \<longleftrightarrow> (\<exists>v. w = k # v \<and> v \<in> B)"
  by (auto simp: conc_iff)

lemma conc_single_right: "w \<in> lang_conc A {[k]} \<longleftrightarrow> (\<exists>u. w = u @ [k] \<and> u \<in> A)"
  by (auto simp: conc_iff)

lemma rw_local_alphabet:
  "l \<in> lang rw_local \<Longrightarrow> c \<in> set l \<Longrightarrow> rw_local_char c \<or> c = cu CHR ''.''"
  using lang_alphabet [of l rw_local] by (auto simp: rw_local_def Plus_def Lit_def)

lemma rw_local_no_at: "l \<in> lang rw_local \<Longrightarrow> cu CHR ''@'' \<notin> set l"
  using rw_local_alphabet [of l "cu CHR ''@''"] at_not_rw_local_char at_not_dot by blast

lemma rw_local_rfc:
  assumes l: "l \<in> lang rw_local"
    and ok: "\<forall>c\<in>set l. rfc_atext c \<or> c = cu CHR ''.''"
  shows "l \<in> lang rfcUnquotedLocal"
proof -
  let ?A = "lang (Plus (Atom rw_local_char))" and ?B = "lang (Plus (Atom rfc_atext))"
  let ?dot = "cu CHR ''.''"
  have narrow: "u \<in> ?B" if "u \<in> ?A" "set u \<subseteq> set l" for u
  proof (rule plus_atom_weaken [OF that(1)])
    fix c assume "c \<in> set u" "rw_local_char c"
    with that(2) ok dot_not_rw_local_char show "rfc_atext c" by auto
  qed
  from l obtain u v where uv: "l = u @ v" "u \<in> ?A"
      "v \<in> lang_star (lang_conc {[?dot]} ?A)"
    by (auto simp: rw_local_def conc_iff lang_Lit)
  have "u \<in> ?B" using narrow uv(1,2) by simp
  moreover have "v \<in> lang_star (lang_conc {[?dot]} ?B)"
  proof (rule star_narrow [OF uv(3), of "set l"])
    show "set v \<subseteq> set l" using uv(1) by simp
  next
    fix x assume "x \<in> lang_conc {[?dot]} ?A" "set x \<subseteq> set l"
    then show "x \<in> lang_conc {[?dot]} ?B"
      using narrow by (auto simp: conc_single)
  qed
  ultimately have "u @ v \<in> lang_conc ?B (lang_star (lang_conc {[?dot]} ?B))"
    by (rule concI)
  with uv(1) show ?thesis by (simp add: rfcUnquotedLocal_def lang_Lit)
qed

lemma rw_label_plus: "lang rw_label \<subseteq> lang (Plus (Atom alnum_hyphen))"
proof
  fix w assume "w \<in> lang rw_label"
  then show "w \<in> lang (Plus (Atom alnum_hyphen))"
    by (rule nonnull_alphabet_plus [rotated 2])
       (auto simp: rw_label_def Opt_def alnum_imp)
qed

lemma rw_tld_plus: "lang (AtLeast 2 (Atom alpha)) \<subseteq> lang (Plus (Atom alnum_hyphen))"
proof
  fix w assume "w \<in> lang (AtLeast 2 (Atom alpha))"
  then show "w \<in> lang (Plus (Atom alnum_hyphen))"
    by (rule nonnull_alphabet_plus [rotated 2])
       (auto simp: AtLeast_def numeral_2_eq_2 alnum_imp)
qed

lemma rw_domain_rfc: "lang rw_domain \<subseteq> lang rfcDomain"
proof -
  let ?P = "lang (Plus (Atom alnum_hyphen))"
  have "lang (Seq rw_label (Lit (cu CHR ''.''))) \<subseteq> lang (Seq (Plus (Atom alnum_hyphen)) (Lit (cu CHR ''.'')))"
    using rw_label_plus by (simp add: conc_mono)
  then have "lang (Star (Seq rw_label (Lit (cu CHR ''.''))))
      \<subseteq> lang (Star (Seq (Plus (Atom alnum_hyphen)) (Lit (cu CHR ''.''))))"
    by (simp add: star_mono)
  with plus_in_star [of "Seq rw_label (Lit (cu CHR ''.''))"]
  have "lang (Plus (Seq rw_label (Lit (cu CHR ''.''))))
      \<subseteq> lang (Star (Seq (Plus (Atom alnum_hyphen)) (Lit (cu CHR ''.''))))"
    by blast
  then show ?thesis
    unfolding rw_domain_def rfcDomain_def lang.simps
    by (intro conc_mono rw_tld_plus)
qed

lemma rfcDomain_alphabet:
  "d \<in> lang rfcDomain \<Longrightarrow> c \<in> set d \<Longrightarrow> alnum_hyphen c \<or> c = cu CHR ''.''"
  using lang_alphabet [of d rfcDomain] by (auto simp: rfcDomain_def Plus_def Lit_def)

lemma rfcDomain_not_empty: "d \<in> lang rfcDomain \<Longrightarrow> d \<noteq> []"
  using nullable_lang [of rfcDomain] by (auto simp: rfcDomain_def Plus_def)

lemma rfcDomain_no_at: "d \<in> lang rfcDomain \<Longrightarrow> cu CHR ''@'' \<notin> set d"
  using rfcDomain_alphabet [of d "cu CHR ''@''"] at_not_alnum_hyphen at_not_dot by blast

lemma rfcDomain_no_bracket: "d \<in> lang rfcDomain \<Longrightarrow> \<not> startsWith d CHR ''[''"
  using rfcDomain_alphabet [of d "cu CHR ''[''"] bracket_not_alnum_hyphen at_not_dot
  by (auto simp: startsWith_def split: list.splits)

lemma labels_nonempty:
  assumes "u \<in> lang_star (lang (Seq (Plus (Atom alnum_hyphen)) (Lit (cu CHR ''.''))))"
    and "v \<in> lang (Plus (Atom alnum_hyphen))"
  shows "[] \<notin> set (split_on (cu CHR ''.'') (u @ v))"
  using assms
proof (induction rule: lang_star.induct)
  case star_nil
  then have "v \<noteq> []" "cu CHR ''.'' \<notin> set v"
    using dot_not_alnum_hyphen by (auto simp: plus_atom)
  then show ?case by (simp add: split_on_no_sep)
next
  case (star_app x u)
  from star_app.hyps(1) obtain w where x: "x = w @ [cu CHR ''.'']"
      and w: "w \<in> lang (Plus (Atom alnum_hyphen))"
    by (auto simp: lang_Lit conc_single_right)
  from w have "w \<noteq> []" "cu CHR ''.'' \<notin> set w"
    using dot_not_alnum_hyphen by (auto simp: plus_atom)
  moreover have "[] \<notin> set (split_on (cu CHR ''.'') (u @ v))"
    using star_app by simp
  ultimately show ?case
    using x by (simp add: split_on_append)
qed

lemma rfcDomain_labels: "d \<in> lang rfcDomain \<Longrightarrow> [] \<notin> set (split_on (cu CHR ''.'') d)"
  using labels_nonempty by (auto simp: rfcDomain_def conc_iff)

lemma split_at_two:
  "cu CHR ''@'' \<notin> set l \<Longrightarrow> cu CHR ''@'' \<notin> set d \<Longrightarrow>
   split_on (cu CHR ''@'') (l @ cu CHR ''@'' # d) = [l, d]"
  by (simp add: split_on_append split_on_no_sep)

lemma post_check_passes:
  assumes "cu CHR ''@'' \<notin> set l" and "d \<in> lang rfcDomain"
  shows "\<not> rfc_post_regex_rejects (l @ cu CHR ''@'' # d)"
proof -
  have "nth_opt (split_on (cu CHR ''@'') (l @ cu CHR ''@'' # d)) 1 = Some d"
    using assms rfcDomain_no_at by (simp add: split_at_two nth_opt_def)
  moreover have "last (split_on (cu CHR ''.'') d) \<noteq> []"
    using rfcDomain_labels [OF assms(2)] last_in_set [OF split_on_not_Nil, of "cu CHR ''.''" d]
    by metis
  moreover have "\<not> list_ex (\<lambda>l. length l = 0) (split_on (cu CHR ''.'') d)"
    using rfcDomain_labels [OF assms(2)] by (auto simp: list_ex_iff)
  ultimately show ?thesis
    using rfcDomain_no_bracket [OF assms(2)] rfcDomain_not_empty [OF assms(2)]
    by (simp add: rfc_post_regex_rejects_def Let_def)
qed

lemma realWorld_parts:
  assumes "test realWorldEmailRegex t"
  obtains l d where "t = l @ cu CHR ''@'' # d" "l \<in> lang rw_local" "d \<in> lang rw_domain"
  using assms by (auto simp: test_lang realWorldEmailRegex_def conc_iff lang_Lit)

lemma rfc_from_parts:
  assumes "l \<in> lang rfcUnquotedLocal" "d \<in> lang rfcDomain"
  shows "test rfcSyntaxRegex (l @ cu CHR ''@'' # d)"
proof -
  have tail: "cu CHR ''@'' # d \<in> lang (Seq (Lit (cu CHR ''@'')) (Alts [rfcDomain, rfcIPv4, rfcIPv6]))"
    using assms(2) by (simp add: lang_Lit conc_single)
  have "l \<in> lang (Alt rfcUnquotedLocal rfcQuotedLocal)"
    using assms(1) by simp
  from this tail have "l @ cu CHR ''@'' # d
      \<in> lang_conc (lang (Alt rfcUnquotedLocal rfcQuotedLocal))
          (lang (Seq (Lit (cu CHR ''@'')) (Alts [rfcDomain, rfcIPv4, rfcIPv6])))"
    by (rule concI)
  then show ?thesis by (simp add: test_lang rfcSyntaxRegex_def)
qed

lemma realWorld_in_rfc:
  assumes rw: "syntax_check RealWorld t"
    and loc: "list_all (\<lambda>c. rfc_atext c \<or> c = cu CHR ''.'') (takeWhile (\<lambda>c. c \<noteq> cu CHR ''@'') t)"
  shows "syntax_check Rfc t"
proof -
  from rw have "test realWorldEmailRegex t"
    by (simp add: syntax_check_def selectedRegex_def split: if_splits)
  then obtain l d where t: "t = l @ cu CHR ''@'' # d"
      and l: "l \<in> lang rw_local" and d: "d \<in> lang rw_domain"
    by (rule realWorld_parts)
  have no_at: "cu CHR ''@'' \<notin> set l" using l by (rule rw_local_no_at)
  then have "takeWhile (\<lambda>c. c \<noteq> cu CHR ''@'') t = l"
    using t by (auto simp: takeWhile_tail)
  with loc have "\<forall>c\<in>set l. rfc_atext c \<or> c = cu CHR ''.''"
    by (simp add: list_all_iff)
  with l have l': "l \<in> lang rfcUnquotedLocal" by (rule rw_local_rfc)
  from d rw_domain_rfc have d': "d \<in> lang rfcDomain" by blast
  from l' d' have "test rfcSyntaxRegex t" unfolding t by (rule rfc_from_parts)
  moreover from no_at d' have "\<not> rfc_post_regex_rejects t" unfolding t by (rule post_check_passes)
  ultimately show ?thesis by (simp add: syntax_check_def selectedRegex_def)
qed

section \<open>Printable ASCII\<close>

lemma printable_table:
  "list_all (\<lambda>c. \<not> rw_local_char c \<or> rfc_atext c) (map of_nat [33..<127])"
  by code_simp

lemma printable_enum:
  assumes "printable_ascii c"
  shows "c \<in> set (map of_nat [33..<127])"
proof -
  from assms have "unat c \<in> {33..<127}"
    by (simp add: printable_ascii_def word_le_nat_alt)
  then have "of_nat (unat c) \<in> (of_nat ` {33..<127} :: code_unit set)"
    by (rule imageI)
  moreover have "of_nat (unat c) = c" by simp
  ultimately show ?thesis by (simp only: set_map set_upt)
qed

lemma printable_rw_local_char:
  "printable_ascii c \<Longrightarrow> rw_local_char c \<Longrightarrow> rfc_atext c"
  using printable_table printable_enum [of c] by (auto simp only: list_all_iff)

lemma realWorld_in_rfc_printable:
  assumes rw: "syntax_check RealWorld t" and pr: "list_all printable_ascii t"
  shows "syntax_check Rfc t"
proof (rule realWorld_in_rfc [OF rw])
  from rw have "test realWorldEmailRegex t"
    by (simp add: syntax_check_def selectedRegex_def split: if_splits)
  then obtain l d where t: "t = l @ cu CHR ''@'' # d" and l: "l \<in> lang rw_local"
    by (rule realWorld_parts)
  have "cu CHR ''@'' \<notin> set l" using l by (rule rw_local_no_at)
  then have tw: "takeWhile (\<lambda>c. c \<noteq> cu CHR ''@'') t = l"
    using t by (auto simp: takeWhile_tail)
  have "rfc_atext c \<or> c = cu CHR ''.''" if "c \<in> set l" for c
  proof -
    from that pr t have "printable_ascii c" by (auto simp: list_all_iff)
    with rw_local_alphabet [OF l that] show ?thesis
      using printable_rw_local_char by blast
  qed
  then show "list_all (\<lambda>c. rfc_atext c \<or> c = cu CHR ''.'') (takeWhile (\<lambda>c. c \<noteq> cu CHR ''@'') t)"
    unfolding tw by (simp add: list_all_iff)
qed

section \<open>The validator, step by step\<close>

lemma trim_white:
  assumes "list_all is_white_space s"
  shows "trim s = []"
proof -
  from assms have empty: "dropWhile is_white_space s = []"
    by (simp add: dropWhile_eq_Nil_conv list_all_iff)
  show ?thesis unfolding trim_def empty by simp
qed

lemma validate_string:
  "validateEmailStrict r (JString e) options =
     (if trim e = [] \<or> \<not> syntax_check (mode_of options) (trim e) then (Inr False, [])
      else if \<not> checkDomain_of options then (Inr True, [])
      else (case nth_opt (split_on (cu CHR ''@'') (trim e)) 1 of
              None \<Rightarrow> (Inr False, [])
            | Some d \<Rightarrow> if d = [] then (Inr False, []) else (Inr (mx_verdict (r d)), [d])))"
  by (auto simp: validateEmailStrict_def typeof_js_def string_of_def syntax_check_def
           mx_verdict_def Let_def split: option.splits mx_outcome.splits)

lemma domain_lookup:
  assumes "trim e \<noteq> []" and "syntax_check (mode_of options) (trim e)"
    and "checkDomain_of options"
    and "nth_opt (split_on (cu CHR ''@'') (trim e)) 1 = Some d" and "d \<noteq> []"
  shows "validateEmailStrict r (JString e) options = (Inr (mx_verdict (r d)), [d])"
  using assms by (simp add: validate_string)

lemma mx_verdict_cases:
  "mx_verdict (Resolved ms) = (ms \<noteq> [])" "mx_verdict (Rejected code) = False"
  by (simp_all add: mx_verdict_def)

text \<open>
  In mode real-world the piece after the first \<^verbatim>\<open>@\<close> is the domain that the pattern
  matched, and it is never empty: the lookup is made once, of the domain.
\<close>

lemma realWorld_lookup_once:
  assumes ok: "test realWorldEmailRegex (trim e)"
    and rw: "mode_of options = RealWorld" and cd: "checkDomain_of options"
  shows "\<exists>l d. trim e = l @ cu CHR ''@'' # d \<and> d \<in> lang rw_domain
           \<and> validateEmailStrict r (JString e) options = (Inr (mx_verdict (r d)), [d])"
proof -
  from ok obtain l d where t: "trim e = l @ cu CHR ''@'' # d"
      and l: "l \<in> lang rw_local" and d: "d \<in> lang rw_domain"
    by (rule realWorld_parts)
  from d rw_domain_rfc have d': "d \<in> lang rfcDomain" by blast
  have split: "nth_opt (split_on (cu CHR ''@'') (trim e)) 1 = Some d"
    using rw_local_no_at [OF l] rfcDomain_no_at [OF d'] t
    by (simp add: split_at_two nth_opt_def)
  have "syntax_check (mode_of options) (trim e)"
    using ok rw by (simp add: syntax_check_def selectedRegex_def)
  moreover have "trim e \<noteq> []" using t by simp
  ultimately have "validateEmailStrict r (JString e) options = (Inr (mx_verdict (r d)), [d])"
    using cd split rfcDomain_not_empty [OF d'] by (intro domain_lookup)
  with t d show ?thesis by blast
qed

section \<open>The claims\<close>

text \<open>
  On the rfc alphabet the real-world check is within the rfc check (\<open>realWorld_in_rfc\<close>,
  \<open>realWorld_in_rfc_printable\<close> above). C1 at the inputs U+00E9 \<^verbatim>\<open>@example.com\<close>,
  \<^verbatim>\<open>a\<close> U+0001 \<^verbatim>\<open>b@example.com\<close> and U+007F \<^verbatim>\<open>@example.com\<close>: the real-world check
  accepts each, since its local part class is a negated class that holds every code unit
  it does not list, and the rfc check rejects each, since its local part is a list of
  ASCII characters or a quoted string.
\<close>

theorem realWorld_accepts_what_rfc_rejects:
  "syntax_check RealWorld (0xE9 # str ''@example.com'')
   \<and> \<not> syntax_check Rfc (0xE9 # str ''@example.com'')
   \<and> validateEmailStrict r (JString (0xE9 # str ''@example.com''))
       (Some \<lparr>checkDomain = None, validationMode = Some RealWorld\<rparr>) = (Inr True, [])
   \<and> validateEmailStrict r (JString (0xE9 # str ''@example.com''))
       (Some \<lparr>checkDomain = None, validationMode = Some Rfc\<rparr>) = (Inr False, [])
   \<and> validateEmailStrict r (JString (str ''a'' @ 0x01 # str ''b@example.com''))
       (Some \<lparr>checkDomain = None, validationMode = Some RealWorld\<rparr>) = (Inr True, [])
   \<and> validateEmailStrict r (JString (str ''a'' @ 0x01 # str ''b@example.com''))
       (Some \<lparr>checkDomain = None, validationMode = Some Rfc\<rparr>) = (Inr False, [])
   \<and> validateEmailStrict r (JString (0x7F # str ''@example.com''))
       (Some \<lparr>checkDomain = None, validationMode = Some RealWorld\<rparr>) = (Inr True, [])
   \<and> validateEmailStrict r (JString (0x7F # str ''@example.com''))
       (Some \<lparr>checkDomain = None, validationMode = Some Rfc\<rparr>) = (Inr False, [])"
  by code_simp

text \<open>
  C2 at the input \<^verbatim>\<open>"@@"@example.com\<close> in rfc mode with the domain check on: the syntax
  check accepts it, \<^verbatim>\<open>split('@')[1]\<close> is the empty string between the two \<^verbatim>\<open>@\<close> of
  the quoted local part, and the function returns false without any lookup, whatever the
  resolver would have answered.
\<close>

theorem quoted_at_signs_skip_lookup:
  "syntax_check Rfc (dquote # str ''@@'' @ dquote # str ''@example.com'')
   \<and> nth_opt (split_on (cu CHR ''@'') (dquote # str ''@@'' @ dquote # str ''@example.com'')) 1
       = Some []
   \<and> validateEmailStrict r (JString (dquote # str ''@@'' @ dquote # str ''@example.com''))
       (Some \<lparr>checkDomain = Some True, validationMode = Some Rfc\<rparr>) = (Inr False, [])"
  by code_simp

text \<open>
  Where the piece after the first \<^verbatim>\<open>@\<close> is not empty there is one lookup, of that
  piece, and its outcome decides the result; so for \<^verbatim>\<open>test@example-valid.com\<close>.
\<close>

lemma example_valid_lookup:
  "validateEmailStrict r (JString (str ''test@example-valid.com''))
     (Some \<lparr>checkDomain = Some True, validationMode = m\<rparr>)
   = (Inr (mx_verdict (r (str ''example-valid.com''))), [str ''example-valid.com''])"
proof (rule domain_lookup)
  show "trim (str ''test@example-valid.com'') \<noteq> []" by code_simp
  show "checkDomain_of (Some \<lparr>checkDomain = Some True, validationMode = m\<rparr>)"
    by (simp add: checkDomain_of_def)
  show "nth_opt (split_on (cu CHR ''@'') (trim (str ''test@example-valid.com''))) 1
      = Some (str ''example-valid.com'')" by code_simp
  show "str ''example-valid.com'' \<noteq> []" by code_simp
  have "syntax_check RealWorld (trim (str ''test@example-valid.com''))" by code_simp
  moreover have "syntax_check Rfc (trim (str ''test@example-valid.com''))" by code_simp
  ultimately show "syntax_check (mode_of (Some \<lparr>checkDomain = Some True, validationMode = m\<rparr>))
      (trim (str ''test@example-valid.com''))"
    by (cases "mode_of (Some \<lparr>checkDomain = Some True, validationMode = m\<rparr>)") simp_all
qed

text \<open>
  C3: a value that is not a string makes the function fail with the type error, with no
  lookup; a string never does.
\<close>

theorem non_string_type_error:
  "(typeof_js email \<noteq> ''string'' \<longrightarrow>
      validateEmailStrict r email options = (Inl (TypeError ''Input must be a string.''), []))
   \<and> (typeof_js email = ''string'' \<longrightarrow> \<not> isl (fst (validateEmailStrict r email options)))"
proof (cases email)
  case (JString e)
  then show ?thesis
    by (simp add: typeof_js_def validate_string split: option.splits)
qed (simp_all add: typeof_js_def validateEmailStrict_def)

theorem non_string_type_error_witness:
  "typeof_js (JNumber 123) \<noteq> ''string''
   \<and> validateEmailStrict (\<lambda>_. Resolved []) (JNumber 123) None
       = (Inl (TypeError ''Input must be a string.''), [])
   \<and> typeof_js (JString (str ''test@example.com'')) = ''string''
   \<and> \<not> isl (fst (validateEmailStrict (\<lambda>_. Resolved []) (JString (str ''test@example.com'')) None))"
  using non_string_type_error [of "JNumber 123" "\<lambda>_. Resolved []" None]
    non_string_type_error [of "JString (str ''test@example.com'')" "\<lambda>_. Resolved []" None]
  by (simp add: typeof_js_def)

text \<open>
  C4: an input that is empty or made of white space only gives false, with no lookup,
  under every option.
\<close>

theorem blank_input_false_no_lookup:
  "list_all is_white_space s \<Longrightarrow> validateEmailStrict r (JString s) options = (Inr False, [])"
  by (simp add: validate_string trim_white)

theorem blank_input_false_no_lookup_witness:
  "list_all is_white_space (str ''   '')
   \<and> validateEmailStrict (\<lambda>_. Resolved [\<lparr>exchange = str ''mx1.example.com'', priority = 10\<rparr>])
       (JString (str ''   '')) (Some \<lparr>checkDomain = Some True, validationMode = Some Rfc\<rparr>)
     = (Inr False, [])"
proof -
  have a: "list_all is_white_space (str ''   '')" by code_simp
  from a blank_input_false_no_lookup [OF a] show ?thesis by blast
qed

text \<open>
  C5: an input that the syntax check of the selected policy rejects gives false, not an
  error, with no lookup, whatever \<^verbatim>\<open>checkDomain\<close> is.
\<close>

theorem syntax_rejection_false_no_lookup:
  "\<not> syntax_check (mode_of options) (trim s) \<Longrightarrow>
   validateEmailStrict r (JString s) options = (Inr False, [])"
  by (simp add: validate_string)

theorem syntax_rejection_false_no_lookup_witness:
  "\<not> syntax_check (mode_of (Some \<lparr>checkDomain = Some True, validationMode = Some Rfc\<rparr>))
        (trim (str ''test@example..com''))
   \<and> validateEmailStrict (\<lambda>_. Resolved [\<lparr>exchange = str ''mx1.example.com'', priority = 10\<rparr>])
       (JString (str ''test@example..com''))
       (Some \<lparr>checkDomain = Some True, validationMode = Some Rfc\<rparr>)
     = (Inr False, [])"
proof -
  have a: "\<not> syntax_check (mode_of (Some \<lparr>checkDomain = Some True, validationMode = Some Rfc\<rparr>))
        (trim (str ''test@example..com''))"
    by code_simp
  from a syntax_rejection_false_no_lookup [OF a] show ?thesis by blast
qed

text \<open>
  C6: no options, or options that leave a field out, behave as mode real-world and no
  domain check; \<^verbatim>\<open>test@example.com\<close> with no options gives true with no lookup.
\<close>

theorem defaults_real_world_no_domain_check:
  "validateEmailStrict r (JString s) None
     = validateEmailStrict r (JString s)
         (Some \<lparr>checkDomain = Some False, validationMode = Some RealWorld\<rparr>)
   \<and> validateEmailStrict r (JString s) (Some \<lparr>checkDomain = None, validationMode = None\<rparr>)
     = validateEmailStrict r (JString s)
         (Some \<lparr>checkDomain = Some False, validationMode = Some RealWorld\<rparr>)
   \<and> validateEmailStrict r (JString s) (Some \<lparr>checkDomain = None, validationMode = m\<rparr>)
     = validateEmailStrict r (JString s) (Some \<lparr>checkDomain = Some False, validationMode = m\<rparr>)
   \<and> validateEmailStrict r (JString s) (Some \<lparr>checkDomain = cd, validationMode = None\<rparr>)
     = validateEmailStrict r (JString s)
         (Some \<lparr>checkDomain = cd, validationMode = Some RealWorld\<rparr>)
   \<and> validateEmailStrict r (JString (str ''test@example.com'')) None = (Inr True, [])"
proof (intro conjI)
  show "validateEmailStrict r (JString (str ''test@example.com'')) None = (Inr True, [])"
    by code_simp
qed (simp_all add: validate_string mode_of_def checkDomain_of_def)

text \<open>
  C7: with no domain check, \<^verbatim>\<open>test@localhost\<close> and \<^verbatim>\<open>"user name"@example.com\<close> give
  false in mode real-world and true in mode rfc.
\<close>

theorem policies_disagree_examples:
  "validateEmailStrict r (JString (str ''test@localhost''))
     (Some \<lparr>checkDomain = None, validationMode = Some RealWorld\<rparr>) = (Inr False, [])
   \<and> validateEmailStrict r (JString (str ''test@localhost''))
     (Some \<lparr>checkDomain = None, validationMode = Some Rfc\<rparr>) = (Inr True, [])
   \<and> validateEmailStrict r (JString (dquote # str ''user name'' @ dquote # str ''@example.com''))
     (Some \<lparr>checkDomain = None, validationMode = Some RealWorld\<rparr>) = (Inr False, [])
   \<and> validateEmailStrict r (JString (dquote # str ''user name'' @ dquote # str ''@example.com''))
     (Some \<lparr>checkDomain = None, validationMode = Some Rfc\<rparr>) = (Inr True, [])"
  by code_simp

lemma post_check_only_empty_labels:
  "rfc_post_regex_rejects t =
     (\<exists>d. nth_opt (split_on (cu CHR ''@'') t) 1 = Some d \<and> d \<noteq> []
          \<and> \<not> startsWith d CHR ''['' \<and> [] \<in> set (split_on (cu CHR ''.'') d))"
proof -
  have "last ls = [] \<or> list_ex (\<lambda>l. length l = 0) ls \<longleftrightarrow> [] \<in> set ls"
    if "ls \<noteq> []" for ls :: "js_string list"
  proof -
    have "last ls \<in> set ls" using that by (rule last_in_set)
    then have "last ls = [] \<Longrightarrow> [] \<in> set ls" by metis
    then show ?thesis by (auto simp: list_ex_iff)
  qed
  from this [OF split_on_not_Nil] show ?thesis
    by (auto simp: rfc_post_regex_rejects_def Let_def split: option.splits)
qed

text \<open>
  The three lenient domains of the source's documentation are accepted in mode rfc.
\<close>

lemma rfc_lenient_examples:
  "validateEmailStrict r (JString (str ''test@example.c''))
     (Some \<lparr>checkDomain = Some False, validationMode = Some Rfc\<rparr>) = (Inr True, [])
   \<and> validateEmailStrict r (JString (str ''test@-example.com''))
     (Some \<lparr>checkDomain = Some False, validationMode = Some Rfc\<rparr>) = (Inr True, [])
   \<and> validateEmailStrict r (JString (str ''test@example-.com''))
     (Some \<lparr>checkDomain = Some False, validationMode = Some Rfc\<rparr>) = (Inr True, [])"
  by code_simp

text \<open>
  C8 at the input \<^verbatim>\<open>"a@.b"@example.com\<close> in mode rfc with no domain check: the pattern
  accepts it, its domain \<^verbatim>\<open>example.com\<close> is a word of the domain pattern and has the
  labels \<^verbatim>\<open>example\<close> and \<^verbatim>\<open>com\<close>, none empty, and yet the checks after the pattern
  reject it and the function returns false.
\<close>

theorem refinement_rejects_domain_without_empty_label:
  "test rfcSyntaxRegex (dquote # str ''a@.b'' @ dquote # str ''@example.com'')
   \<and> last (split_on (cu CHR ''@'') (dquote # str ''a@.b'' @ dquote # str ''@example.com''))
       = str ''example.com''
   \<and> test rfcDomain (str ''example.com'')
   \<and> split_on (cu CHR ''.'') (str ''example.com'') = [str ''example'', str ''com'']
   \<and> rfc_post_regex_rejects (dquote # str ''a@.b'' @ dquote # str ''@example.com'')
   \<and> validateEmailStrict r (JString (dquote # str ''a@.b'' @ dquote # str ''@example.com''))
       (Some \<lparr>checkDomain = Some False, validationMode = Some Rfc\<rparr>) = (Inr False, [])"
  by code_simp

text \<open>
  C9: with no domain check the result depends on the input string and the mode only: not
  on the resolver, nor on anything else in the options; and no lookup is made.
\<close>

theorem no_domain_check_function_of_input_and_mode:
  assumes "\<not> checkDomain_of o1" and "\<not> checkDomain_of o2" and "mode_of o1 = mode_of o2"
  shows "validateEmailStrict r1 (JString s) o1 = validateEmailStrict r2 (JString s) o2
         \<and> snd (validateEmailStrict r1 (JString s) o1) = []"
  using assms by (simp add: validate_string)

theorem no_domain_check_function_of_input_and_mode_witness:
  "\<not> checkDomain_of None
   \<and> \<not> checkDomain_of (Some \<lparr>checkDomain = Some False, validationMode = Some RealWorld\<rparr>)
   \<and> mode_of None = mode_of (Some \<lparr>checkDomain = Some False, validationMode = Some RealWorld\<rparr>)
   \<and> validateEmailStrict (\<lambda>_. Resolved []) (JString (str ''test@example.com'')) None
     = validateEmailStrict (\<lambda>_. Rejected (Some ''ETIMEOUT'')) (JString (str ''test@example.com''))
         (Some \<lparr>checkDomain = Some False, validationMode = Some RealWorld\<rparr>)
   \<and> snd (validateEmailStrict (\<lambda>_. Resolved []) (JString (str ''test@example.com'')) None) = []"
proof -
  have a: "\<not> checkDomain_of None" by (simp add: checkDomain_of_def)
  have b: "\<not> checkDomain_of (Some \<lparr>checkDomain = Some False, validationMode = Some RealWorld\<rparr>)"
    by (simp add: checkDomain_of_def)
  have c: "mode_of None = mode_of (Some \<lparr>checkDomain = Some False, validationMode = Some RealWorld\<rparr>)"
    by (simp add: mode_of_def)
  from a b c no_domain_check_function_of_input_and_mode [OF a b c] show ?thesis by blast
qed

text \<open>
  C10: \<^verbatim>\<open>"a@b"@example.com\<close> passes the rfc syntax check; the piece that the function
  takes as the domain is \<^verbatim>\<open>b"\<close>, between the first and the second \<^verbatim>\<open>@\<close>, while the
  domain of the address, after the last \<^verbatim>\<open>@\<close>, is \<^verbatim>\<open>example.com\<close>; with the domain
  check on, the one lookup is of \<^verbatim>\<open>b"\<close>. The checks after the pattern read the same
  piece: they decide on the labels of the piece after the first \<^verbatim>\<open>@\<close> for every input,
  and so reject \<^verbatim>\<open>"a@.b"@example.com\<close>, whose piece \<^verbatim>\<open>.b"\<close> has an empty label and
  whose domain \<^verbatim>\<open>example.com\<close> has none, before any lookup.
\<close>

theorem quoted_at_piece_used_as_domain:
  "syntax_check Rfc (dquote # str ''a@b'' @ dquote # str ''@example.com'')
   \<and> nth_opt (split_on (cu CHR ''@'') (dquote # str ''a@b'' @ dquote # str ''@example.com'')) 1
       = Some (str ''b'' @ [dquote])
   \<and> last (split_on (cu CHR ''@'') (dquote # str ''a@b'' @ dquote # str ''@example.com''))
       = str ''example.com''
   \<and> str ''b'' @ [dquote] \<noteq> str ''example.com''
   \<and> validateEmailStrict r (JString (dquote # str ''a@b'' @ dquote # str ''@example.com''))
       (Some \<lparr>checkDomain = Some True, validationMode = Some Rfc\<rparr>)
     = (Inr (mx_verdict (r (str ''b'' @ [dquote]))), [str ''b'' @ [dquote]])
   \<and> test rfcSyntaxRegex (dquote # str ''a@.b'' @ dquote # str ''@example.com'')
   \<and> nth_opt (split_on (cu CHR ''@'') (dquote # str ''a@.b'' @ dquote # str ''@example.com'')) 1
       = Some (str ''.b'' @ [dquote])
   \<and> last (split_on (cu CHR ''@'') (dquote # str ''a@.b'' @ dquote # str ''@example.com''))
       = str ''example.com''
   \<and> split_on (cu CHR ''.'') (str ''.b'' @ [dquote]) = [[], str ''b'' @ [dquote]]
   \<and> split_on (cu CHR ''.'') (str ''example.com'') = [str ''example'', str ''com'']
   \<and> rfc_post_regex_rejects (dquote # str ''a@.b'' @ dquote # str ''@example.com'')
   \<and> \<not> rfc_post_regex_rejects (dquote # str ''a@b'' @ dquote # str ''@example.com'')
   \<and> validateEmailStrict r (JString (dquote # str ''a@.b'' @ dquote # str ''@example.com''))
       (Some \<lparr>checkDomain = Some True, validationMode = Some Rfc\<rparr>) = (Inr False, [])
   \<and> rfc_post_regex_rejects t =
     (\<exists>d. nth_opt (split_on (cu CHR ''@'') t) 1 = Some d \<and> d \<noteq> []
          \<and> \<not> startsWith d CHR ''['' \<and> [] \<in> set (split_on (cu CHR ''.'') d))"
proof (intro conjI)
  show "validateEmailStrict r (JString (dquote # str ''a@b'' @ dquote # str ''@example.com''))
       (Some \<lparr>checkDomain = Some True, validationMode = Some Rfc\<rparr>)
     = (Inr (mx_verdict (r (str ''b'' @ [dquote]))), [str ''b'' @ [dquote]])"
  proof (rule domain_lookup)
    show "trim (dquote # str ''a@b'' @ dquote # str ''@example.com'') \<noteq> []" by code_simp
    show "syntax_check (mode_of (Some \<lparr>checkDomain = Some True, validationMode = Some Rfc\<rparr>))
        (trim (dquote # str ''a@b'' @ dquote # str ''@example.com''))" by code_simp
    show "checkDomain_of (Some \<lparr>checkDomain = Some True, validationMode = Some Rfc\<rparr>)"
      by code_simp
    show "nth_opt (split_on (cu CHR ''@'')
        (trim (dquote # str ''a@b'' @ dquote # str ''@example.com''))) 1
        = Some (str ''b'' @ [dquote])" by code_simp
    show "str ''b'' @ [dquote] \<noteq> []" by code_simp
  qed
  show "rfc_post_regex_rejects t =
     (\<exists>d. nth_opt (split_on (cu CHR ''@'') t) 1 = Some d \<and> d \<noteq> []
          \<and> \<not> startsWith d CHR ''['' \<and> [] \<in> set (split_on (cu CHR ''.'') d))"
    by (rule post_check_only_empty_labels)
qed code_simp+

end
